theory Spec2Isabelle
  imports Main "HOL-Library.Log_Nat"
begin

section \<open>Data model\<close>

text \<open>
  The page \<^verbatim>\<open>src/pages/admin/PaymentsManagement.tsx\<close> works on values of the
  TypeScript interface \<^verbatim>\<open>Payment\<close>. A field of type \<^verbatim>\<open>string | null\<close> is an
  \<open>option\<close>, the nested object \<^verbatim>\<open>profiles\<close> a record of its own and again an
  \<open>option\<close>.

  A JavaScript string is modelled as a \<open>string\<close> of bytes, its UTF-8 form.
  \<^verbatim>\<open>includes\<close> and \<^verbatim>\<open>trim\<close> are modelled in full. \<^verbatim>\<open>toLowerCase\<close> is modelled on
  the letters of ASCII and leaves every other character as it is.

  A JavaScript number is an IEEE 754 double: a finite value, which is a rational number,
  one of the two infinities, or NaN. The sign of zero is not modelled: the code does not
  divide by an amount, and \<^verbatim>\<open>toFixed\<close> prints both zeros alike.
\<close>

datatype number = Fin rat | PosInf | NegInf | NaN

record profile =
  email :: string
  first_name :: "string option"
  last_name :: "string option"

text \<open>The field \<^verbatim>\<open>id\<close> is named \<open>id_field\<close>: \<open>id\<close> is the identity function of HOL.\<close>

record payment =
  id_field :: string
  amount :: number
  status :: string
  payment_method :: string
  created_at :: string
  transaction_id :: "string option"
  payment_reference :: "string option"
  payment_provider :: "string option"
  currency :: string
  profiles :: "profile option"

section \<open>Numbers and strings of the language\<close>

subsection \<open>Arithmetic of numbers\<close>

text \<open>
  \<open>ilog2 x\<close> is the binary exponent of a positive rational: \<open>2 powi ilog2 x \<le> x < 2 powi (ilog2 x + 1)\<close>
  (lemma \<open>ilog2_correct\<close> below). \<open>fl\<close> rounds a rational to the nearest double, ties to
  the even significand: 53 bits of significand, the least exponent \<open>- 1022\<close> (below it
  the spacing stays \<open>2 powi - 1074\<close>, the subnormal numbers), and overflow to an infinity
  from \<open>2 powi 1024\<close> on.
\<close>

definition ilog2 :: "rat \<Rightarrow> int" where
  "ilog2 x = (case quotient_of x of (p, q) \<Rightarrow>
      let d = bitlen p - bitlen q in if 2 powi d \<le> x then d else d - 1)"

definition round_half_even :: "rat \<Rightarrow> int" where
  "round_half_even y =
     (let f = \<lfloor>y\<rfloor>; d = y - of_int f
      in if d < 1 / 2 then f else if 1 / 2 < d then f + 1
         else if even f then f else f + 1)"

definition fl :: "rat \<Rightarrow> number" where
  "fl x = (if x = 0 then Fin 0 else
      let e = max (ilog2 \<bar>x\<bar>) (- 1022);
          u = 2 powi (e - 52);
          r = of_int (round_half_even (\<bar>x\<bar> / u)) * u
      in if 2 powi 1024 \<le> r then (if 0 < x then PosInf else NegInf)
         else Fin (if 0 < x then r else - r))"

text \<open>
  The operators \<^verbatim>\<open>+\<close>, \<^verbatim>\<open>*\<close> and \<^verbatim>\<open>/\<close> on numbers: the exact result, rounded;
  the special values as IEEE 754 has them. A zero divisor is taken as \<open>+0\<close>.
\<close>

fun num_add :: "number \<Rightarrow> number \<Rightarrow> number" where
  "num_add (Fin x) (Fin y) = fl (x + y)"
| "num_add NaN _ = NaN"
| "num_add _ NaN = NaN"
| "num_add PosInf NegInf = NaN"
| "num_add NegInf PosInf = NaN"
| "num_add PosInf _ = PosInf"
| "num_add _ PosInf = PosInf"
| "num_add NegInf _ = NegInf"
| "num_add _ NegInf = NegInf"

definition num_sgn :: "number \<Rightarrow> int" where
  "num_sgn v = (case v of Fin x \<Rightarrow> (if x < 0 then - 1 else if x = 0 then 0 else 1)
                | PosInf \<Rightarrow> 1 | NegInf \<Rightarrow> - 1 | NaN \<Rightarrow> 0)"

definition inf_of_sign :: "int \<Rightarrow> number" where
  "inf_of_sign s = (if s = 0 then NaN else if 0 < s then PosInf else NegInf)"

fun num_mul :: "number \<Rightarrow> number \<Rightarrow> number" where
  "num_mul (Fin x) (Fin y) = fl (x * y)"
| "num_mul NaN _ = NaN"
| "num_mul _ NaN = NaN"
| "num_mul v w = inf_of_sign (num_sgn v * num_sgn w)"

fun num_div :: "number \<Rightarrow> number \<Rightarrow> number" where
  "num_div (Fin x) (Fin y) = (if y = 0 then inf_of_sign (num_sgn (Fin x)) else fl (x / y))"
| "num_div NaN _ = NaN"
| "num_div _ NaN = NaN"
| "num_div (Fin x) _ = Fin 0"
| "num_div PosInf (Fin y) = (if y < 0 then NegInf else PosInf)"
| "num_div NegInf (Fin y) = (if y < 0 then PosInf else NegInf)"
| "num_div _ _ = NaN"

text \<open>The length of an array as a number; an array has fewer than \<open>2 ^ 32\<close> elements.\<close>

definition number_of_nat :: "nat \<Rightarrow> number" where
  "number_of_nat n = fl (of_nat n)"

subsection \<open>Library functions on strings\<close>

text \<open>
  \<^verbatim>\<open>toLowerCase\<close> maps the letters \<^verbatim>\<open>A\<close> to \<^verbatim>\<open>Z\<close> to \<^verbatim>\<open>a\<close> to \<^verbatim>\<open>z\<close>. The
  language folds the letters outside ASCII as well, so that a search term and a field
  that differ in the case of such a letter match there and not here. A string with a
  character outside ASCII lower-cases to a word of ASCII only when that character is
  U+212A, the Kelvin sign, which becomes \<^verbatim>\<open>k\<close>; there is no \<^verbatim>\<open>k\<close> in \<^verbatim>\<open>paid\<close>,
  \<^verbatim>\<open>completed\<close>, \<^verbatim>\<open>pending\<close> and \<^verbatim>\<open>failed\<close>, so whether a lower-cased status is one
  of these words is the same here and in the language.

  \<^verbatim>\<open>s.includes(t)\<close> holds when \<open>t\<close> occurs in \<open>s\<close> as a contiguous substring, so the
  empty string occurs in every string (\<open>includes_str s t\<close>, as \<open>includes\<close> is a keyword).
\<close>

definition toLowerCase :: "string \<Rightarrow> string" where
  "toLowerCase s =
     map (\<lambda>c. case map_of (zip ''ABCDEFGHIJKLMNOPQRSTUVWXYZ'' ''abcdefghijklmnopqrstuvwxyz'') c of
               None \<Rightarrow> c
             | Some l \<Rightarrow> l) s"

primrec includes_str :: "string \<Rightarrow> string \<Rightarrow> bool" where
  "includes_str [] t = (t = [])"
| "includes_str (c # s) t = (take (length t) (c # s) = t \<or> includes_str s t)"

text \<open>
  The white space that \<^verbatim>\<open>trim\<close> removes is the WhiteSpace and LineTerminator code
  points of ECMAScript, each in its UTF-8 form: U+0009 to U+000D, U+0020, U+00A0,
  U+1680, U+2000 to U+200A, U+2028, U+2029, U+202F, U+205F, U+3000 and U+FEFF.
\<close>

definition whiteSpace :: "string list" where
  "whiteSpace =
     [[CHR 0x09], [CHR 0x0A], [CHR 0x0B], [CHR 0x0C], [CHR 0x0D], [CHR 0x20],
      [CHR 0xC2, CHR 0xA0],
      [CHR 0xE1, CHR 0x9A, CHR 0x80],
      [CHR 0xE2, CHR 0x80, CHR 0x80], [CHR 0xE2, CHR 0x80, CHR 0x81],
      [CHR 0xE2, CHR 0x80, CHR 0x82], [CHR 0xE2, CHR 0x80, CHR 0x83],
      [CHR 0xE2, CHR 0x80, CHR 0x84], [CHR 0xE2, CHR 0x80, CHR 0x85],
      [CHR 0xE2, CHR 0x80, CHR 0x86], [CHR 0xE2, CHR 0x80, CHR 0x87],
      [CHR 0xE2, CHR 0x80, CHR 0x88], [CHR 0xE2, CHR 0x80, CHR 0x89],
      [CHR 0xE2, CHR 0x80, CHR 0x8A],
      [CHR 0xE2, CHR 0x80, CHR 0xA8], [CHR 0xE2, CHR 0x80, CHR 0xA9],
      [CHR 0xE2, CHR 0x80, CHR 0xAF],
      [CHR 0xE2, CHR 0x81, CHR 0x9F],
      [CHR 0xE3, CHR 0x80, CHR 0x80],
      [CHR 0xEF, CHR 0xBB, CHR 0xBF]]"

text \<open>
  \<open>stripLeading ws s\<close> removes from the start of \<open>s\<close> every character of \<open>ws\<close>, one
  after the other, until \<open>s\<close> starts with none of them.
\<close>

function stripLeading :: "string list \<Rightarrow> string \<Rightarrow> string" where
  "stripLeading ws s =
     (case find (\<lambda>w. w \<noteq> [] \<and> take (length w) s = w) ws of
        None \<Rightarrow> s
      | Some w \<Rightarrow> stripLeading ws (drop (length w) s))"
  by pat_completeness auto

termination
proof (relation "measure (\<lambda>(ws, s). length s)")
  show "wf (measure (\<lambda>(ws, s). length s))"
    by simp
next
  fix ws :: "string list" and s w :: string
  assume "find (\<lambda>w. w \<noteq> [] \<and> take (length w) s = w) ws = Some w"
  then have w: "w \<noteq> []" and t: "take (length w) s = w"
    by (auto simp: find_Some_iff)
  have "length w = min (length w) (length s)"
    using arg_cong[OF t, of length] by simp
  with w have "0 < length w" and "length w \<le> length s"
    by simp_all
  then have "length s - length w < length s"
    by linarith
  then show "((ws, drop (length w) s), (ws, s)) \<in> measure (\<lambda>(ws, s). length s)"
    by simp
qed

declare stripLeading.simps [simp del]

definition trimStart :: "string \<Rightarrow> string" where
  "trimStart s = stripLeading whiteSpace s"

definition trimEnd :: "string \<Rightarrow> string" where
  "trimEnd s = rev (stripLeading (map rev whiteSpace) (rev s))"

definition trim :: "string \<Rightarrow> string" where
  "trim s = trimEnd (trimStart s)"

text \<open>A string made of white space only: nothing is left once its start is trimmed.\<close>

definition onlyWhiteSpace :: "string \<Rightarrow> bool" where
  "onlyWhiteSpace s = (trimStart s = [])"

subsection \<open>Printing numbers\<close>

definition digit :: "nat \<Rightarrow> char" where
  "digit d = ''0123456789'' ! d"

fun decimal :: "nat \<Rightarrow> string" where
  "decimal n = (if n < 10 then [digit n] else decimal (n div 10) @ [digit (n mod 10)])"

declare decimal.simps [simp del]

text \<open>
  \<^verbatim>\<open>Number::toString\<close> of ECMAScript, for a finite \<open>x\<close> from \<open>10 ^ 21\<close> on, the only
  numbers on which \<^verbatim>\<open>toFixed\<close> calls it. With \<open>n\<close>, \<open>k\<close> and \<open>s\<close> integers such that
  \<open>s\<close> has \<open>k\<close> digits, \<open>s * 10 ^ (n - k)\<close> rounds to \<open>x\<close> and \<open>k\<close> is as small as
  possible (of several such \<open>s\<close> the one closest to \<open>x\<close>, and the even one of two equally
  close), the result is the first digit of \<open>s\<close>, a point and the other digits when there
  are any, and the exponent \<open>n - 1\<close> after \<^verbatim>\<open>e+\<close>. Seventeen digits are enough for every
  double; \<open>shortest\<close> tries \<open>k = 1, 2, \<dots>\<close> in turn.
\<close>

definition roundtrips :: "rat \<Rightarrow> nat \<Rightarrow> nat \<Rightarrow> bool" where
  "roundtrips x s e = (fl (of_nat s * 10 ^ e) = fl x)"

definition candidate :: "rat \<Rightarrow> nat \<Rightarrow> nat \<Rightarrow> nat option" where
  "candidate x n k =
     (let e = n - k; lo = nat \<lfloor>x / 10 ^ e\<rfloor>; hi = lo + 1;
          dl = x - of_nat lo * 10 ^ e; dh = of_nat hi * 10 ^ e - x
      in if roundtrips x lo e \<and> roundtrips x hi e
         then Some (if dl < dh then lo else if dh < dl then hi else if even lo then lo else hi)
         else if roundtrips x lo e then Some lo
         else if roundtrips x hi e then Some hi
         else None)"

fun shortest :: "rat \<Rightarrow> nat \<Rightarrow> nat \<Rightarrow> nat \<Rightarrow> nat \<times> nat" where
  "shortest x n k 0 = (nat \<lfloor>x / 10 ^ (n - k)\<rfloor>, k)"
| "shortest x n k (Suc fuel) =
     (case candidate x n k of Some s \<Rightarrow> (s, k) | None \<Rightarrow> shortest x n (Suc k) fuel)"

definition numberToString :: "rat \<Rightarrow> string" where
  "numberToString x =
     (let n0 = length (decimal (nat \<lfloor>x\<rfloor>));
          (s, k) = shortest x n0 1 17;
          (s', n) = (if s = 10 ^ k then (s div 10, n0 + 1) else (s, n0));
          ds = decimal s'
      in (if k = 1 then ds else take 1 ds @ ''.'' @ drop 1 ds) @ ''e+'' @ decimal (n - 1))"

text \<open>
  \<^verbatim>\<open>x.toFixed(f)\<close> is \<open>toFixed f x\<close>, for \<open>f\<close> up to 100 (the code passes 1 and 2; a
  larger \<open>f\<close> raises a RangeError). A number that is not finite prints as its name. Of a
  finite number the sign is split off; from \<open>10 ^ 21\<close> on the result is that of
  \<^verbatim>\<open>Number::toString\<close>; below, \<open>n\<close> is the integer closest to \<open>x * 10 ^ f\<close> (the larger
  of two), printed with zeros in front until it has \<open>f + 1\<close> digits, and the point goes
  before the last \<open>f\<close> digits.
\<close>

definition toFixed :: "nat \<Rightarrow> number \<Rightarrow> string" where
  "toFixed f v =
     (case v of
        NaN \<Rightarrow> ''NaN''
      | PosInf \<Rightarrow> ''Infinity''
      | NegInf \<Rightarrow> ''-Infinity''
      | Fin x0 \<Rightarrow>
          let s = (if x0 < 0 then ''-'' else []); x = \<bar>x0\<bar>
          in if 10 ^ 21 \<le> x then s @ numberToString x
             else
               let n = nat \<lfloor>x * 10 ^ f + 1 / 2\<rfloor>;
                   m = decimal n
               in if f \<noteq> 0
                  then let k = length m;
                           m' = (if k \<le> f then replicate (f + 1 - k) CHR ''0'' @ m else m);
                           k' = (if k \<le> f then f + 1 else k)
                       in s @ take (k' - f) m' @ ''.'' @ drop (k' - f) m'
                  else s @ m)"

section \<open>The payments page\<close>

subsection \<open>State and fetch\<close>

text \<open>
  The component holds four state variables; \<^verbatim>\<open>useState\<close> gives them their initial
  values.
\<close>

record page_state =
  searchTerm :: string
  payments :: "payment list"
  isLoading :: bool
  error :: "string option"

definition initial_state :: page_state where
  "initial_state = \<lparr>searchTerm = [], payments = [], isLoading = True, error = None\<rparr>"

text \<open>
  What the awaited query does: it resolves with an object \<^verbatim>\<open>{ data, error }\<close>, either
  of which may be null, or it rejects. An error object is represented by its
  \<^verbatim>\<open>message\<close>, the only part of it the code reads.
\<close>

datatype fetch_outcome =
    Resolved "payment list option" "string option"
  | Rejected string

text \<open>
  \<^verbatim>\<open>fetchPayments\<close>: the two assignments before the \<^verbatim>\<open>try\<close>, then the body of the
  \<^verbatim>\<open>try\<close> or, when the query rejects or returns an error (which the code throws), the
  \<^verbatim>\<open>catch\<close> block, then the \<^verbatim>\<open>finally\<close> block.
\<close>

definition fetchPayments :: "fetch_outcome \<Rightarrow> page_state \<Rightarrow> page_state" where
  "fetchPayments outcome s0 =
     (let s1 = s0\<lparr>isLoading := True\<rparr>;
          s2 = s1\<lparr>error := None\<rparr>;
          s3 = (case outcome of
                  Rejected msg \<Rightarrow> s2\<lparr>error := Some msg\<rparr>
                | Resolved data (Some msg) \<Rightarrow> s2\<lparr>error := Some msg\<rparr>
                | Resolved data None \<Rightarrow>
                    s2\<lparr>payments := (case data of None \<Rightarrow> [] | Some d \<Rightarrow> d)\<rparr>)
      in s3\<lparr>isLoading := False\<rparr>)"

text \<open>
  The effect has no dependencies: it runs \<^verbatim>\<open>fetchPayments\<close> once, on the state the
  component is mounted with.
\<close>

definition mount :: "fetch_outcome \<Rightarrow> page_state" where
  "mount outcome = fetchPayments outcome initial_state"

definition setSearchTerm :: "string \<Rightarrow> page_state \<Rightarrow> page_state" where
  "setSearchTerm tm s = s\<lparr>searchTerm := tm\<rparr>"

subsection \<open>Search filter\<close>

text \<open>
  The callback of \<^verbatim>\<open>payments.filter\<close>, as the truth value \<^verbatim>\<open>filter\<close> reads off its
  result. \<^verbatim>\<open>a?.f()\<close> is undefined, which is falsy, when \<open>a\<close> is null; the third
  disjunct is \<^verbatim>\<open>email && ...\<close>, falsy when there is no profile or the email is empty.
\<close>

definition searchMatch :: "string \<Rightarrow> payment \<Rightarrow> bool" where
  "searchMatch tm p =
     ((case transaction_id p of
         None \<Rightarrow> False
       | Some t \<Rightarrow> includes_str (toLowerCase t) (toLowerCase tm))
      \<or> (case payment_reference p of
            None \<Rightarrow> False
          | Some r \<Rightarrow> includes_str (toLowerCase r) (toLowerCase tm))
      \<or> (case profiles p of
            None \<Rightarrow> False
          | Some pr \<Rightarrow> email pr \<noteq> [] \<and> includes_str (toLowerCase (email pr)) (toLowerCase tm)))"

definition filteredPayments :: "string \<Rightarrow> payment list \<Rightarrow> payment list" where
  "filteredPayments tm ps = filter (searchMatch tm) ps"

subsection \<open>Badge variant of a status\<close>

text \<open>
  \<^verbatim>\<open>getStatusVariant\<close> is a \<^verbatim>\<open>switch\<close> on the raw status with strict equality; the
  cases are tried in the order of the source.
\<close>

definition getStatusVariant :: "string \<Rightarrow> string" where
  "getStatusVariant st =
     (if st = ''paid'' then ''default''
      else if st = ''Completed'' then ''default''
      else if st = ''pending'' then ''secondary''
      else if st = ''Pending'' then ''secondary''
      else if st = ''failed'' then ''destructive''
      else if st = ''Failed'' then ''destructive''
      else ''outline'')"

subsection \<open>Display helpers\<close>

text \<open>\<^verbatim>\<open>a || ""\<close> on a string or null: the string, and the empty string for null.\<close>

definition or_empty :: "string option \<Rightarrow> string" where
  "or_empty a = (case a of None \<Rightarrow> [] | Some v \<Rightarrow> v)"

definition getCustomerName :: "payment \<Rightarrow> string" where
  "getCustomerName p =
     (case profiles p of
        None \<Rightarrow> ''Unknown''
      | Some pr \<Rightarrow>
          let firstName = or_empty (first_name pr);
              lastName = or_empty (last_name pr)
          in if firstName \<noteq> [] \<or> lastName \<noteq> []
             then trim (firstName @ '' '' @ lastName)
             else email pr)"

text \<open>
  The Naira sign U+20A6, in UTF-8. \<^verbatim>\<open>toLocaleString\<close> without arguments prints in the
  locale of the host, so it is a parameter of \<^verbatim>\<open>formatCurrency\<close>. The parameter
  \<^verbatim>\<open>currency\<close> has the default \<^verbatim>\<open>"USD"\<close>, taken when no argument is passed.
\<close>

definition naira :: string where
  "naira = [CHR 0xE2, CHR 0x82, CHR 0xA6]"

definition formatCurrency :: "(number \<Rightarrow> string) \<Rightarrow> number \<Rightarrow> string option \<Rightarrow> string" where
  "formatCurrency toLocaleString amt cur =
     (let currency = (case cur of None \<Rightarrow> ''USD'' | Some c \<Rightarrow> c)
      in if currency = ''NGN'' then naira @ toLocaleString amt else ''$'' @ toFixed 2 amt)"

text \<open>
  The condition is \<^verbatim>\<open>payment_provider === 'paystack' && payment_reference\<close>: the
  reference has to be truthy, that is neither null nor the empty string.
\<close>

definition getPaymentProviderLink :: "payment \<Rightarrow> string option" where
  "getPaymentProviderLink p =
     (if payment_provider p = Some ''paystack''
      then (case payment_reference p of
              None \<Rightarrow> None
            | Some r \<Rightarrow>
                if r \<noteq> [] then Some (''https://dashboard.paystack.com/#/transactions/'' @ r)
                else None)
      else None)"

subsection \<open>Aggregates\<close>

text \<open>
  The three sums are \<^verbatim>\<open>reduce\<close> calls from the left with the start value 0, the three
  counts the lengths of filtered lists. \<^verbatim>\<open>Number(payment.amount)\<close> is the amount
  itself, the field being a number.
\<close>

definition totalRevenue :: "payment list \<Rightarrow> number" where
  "totalRevenue ps =
     foldl (\<lambda>sum p.
        if toLowerCase (status p) = ''paid'' \<or> toLowerCase (status p) = ''completed''
        then num_add sum (amount p) else sum) (Fin 0) ps"

definition pendingRevenue :: "payment list \<Rightarrow> number" where
  "pendingRevenue ps =
     foldl (\<lambda>sum p.
        if toLowerCase (status p) = ''pending'' then num_add sum (amount p) else sum) (Fin 0) ps"

definition failedRevenue :: "payment list \<Rightarrow> number" where
  "failedRevenue ps =
     foldl (\<lambda>sum p.
        if toLowerCase (status p) = ''failed'' then num_add sum (amount p) else sum) (Fin 0) ps"

definition completedCount :: "payment list \<Rightarrow> nat" where
  "completedCount ps =
     length (filter (\<lambda>p. toLowerCase (status p) = ''paid'' \<or> toLowerCase (status p) = ''completed'') ps)"

definition pendingCount :: "payment list \<Rightarrow> nat" where
  "pendingCount ps = length (filter (\<lambda>p. toLowerCase (status p) = ''pending'') ps)"

definition failedCount :: "payment list \<Rightarrow> nat" where
  "failedCount ps = length (filter (\<lambda>p. toLowerCase (status p) = ''failed'') ps)"

text \<open>The text of the success rate card once loading is over.\<close>

definition successRate :: "payment list \<Rightarrow> string" where
  "successRate ps =
     (if 0 < length ps
      then toFixed 1
             (num_mul (num_div (number_of_nat (completedCount ps)) (number_of_nat (length ps))) (Fin 100))
           @ ''%''
      else ''0%'')"

subsection \<open>What a render shows\<close>

text \<open>
  The seven aggregates as one render computes them from the state, and the rows of the
  table. The aggregates read \<^verbatim>\<open>payments\<close>, the table \<^verbatim>\<open>filteredPayments\<close>.
\<close>

record summary =
  s_totalRevenue :: number
  s_pendingRevenue :: number
  s_failedRevenue :: number
  s_completedCount :: nat
  s_pendingCount :: nat
  s_failedCount :: nat
  s_successRate :: string

definition aggregate :: "page_state \<Rightarrow> summary" where
  "aggregate s =
     \<lparr>s_totalRevenue = totalRevenue (payments s),
      s_pendingRevenue = pendingRevenue (payments s),
      s_failedRevenue = failedRevenue (payments s),
      s_completedCount = completedCount (payments s),
      s_pendingCount = pendingCount (payments s),
      s_failedCount = failedCount (payments s),
      s_successRate = successRate (payments s)\<rparr>"

text \<open>
  The texts of the four cards, from top to bottom: each amount after a dollar sign and
  each count before its caption, with three dots in their place while the page is
  loading.
\<close>

definition summaryCards :: "page_state \<Rightarrow> string list" where
  "summaryCards s =
     [''$'' @ (if isLoading s then ''...'' else toFixed 2 (s_totalRevenue (aggregate s))),
      (if isLoading s then ''...'' else decimal (s_completedCount (aggregate s)))
        @ '' successful transactions'',
      ''$'' @ (if isLoading s then ''...'' else toFixed 2 (s_pendingRevenue (aggregate s))),
      (if isLoading s then ''...'' else decimal (s_pendingCount (aggregate s)))
        @ '' pending transactions'',
      ''$'' @ (if isLoading s then ''...'' else toFixed 2 (s_failedRevenue (aggregate s))),
      (if isLoading s then ''...'' else decimal (s_failedCount (aggregate s)))
        @ '' failed transactions'',
      (if isLoading s then ''...'' else s_successRate (aggregate s))]"

definition tableRows :: "page_state \<Rightarrow> payment list" where
  "tableRows s = filteredPayments (searchTerm s) (payments s)"

text \<open>
  What stands in place of the table: a message while loading, the error when
  \<^verbatim>\<open>error\<close> is truthy (a string that is not empty), and else the rows, or a message
  when there are none.
\<close>

datatype table_view =
    LoadingMessage
  | ErrorMessage string
  | Rows "payment list"
  | NoPaymentsFound

definition tableView :: "page_state \<Rightarrow> table_view" where
  "tableView s =
     (if isLoading s then LoadingMessage
      else if (case error s of None \<Rightarrow> False | Some e \<Rightarrow> e \<noteq> []) then ErrorMessage (or_empty (error s))
      else if 0 < length (tableRows s) then Rows (tableRows s)
      else NoPaymentsFound)"

section \<open>The loading spinner\<close>

text \<open>
  \<^verbatim>\<open>src/components/LoadingSpinner.tsx\<close>. The two state variables, and the two timers of
  the effect: a pending timer is the time in milliseconds at which it is due, and a
  timer that has fired for good or has been cleared is \<open>None\<close>. Time is simulated and
  counted in milliseconds since the effect ran.
\<close>

record spinner =
  now :: nat
  timeoutId :: "nat option"
  interval :: "nat option"
  timeoutReached :: bool
  loadingTime :: nat

text \<open>
  The delay of a timer depends on what runs the component. In a browser
  \<^verbatim>\<open>setTimeout\<close> and \<^verbatim>\<open>setInterval\<close> take the delay as a Web IDL \<^verbatim>\<open>long\<close>: the number
  loses its fraction, is reduced modulo \<open>2 ^ 32\<close> and is read as a signed 32-bit integer
  (NaN and the infinities are 0), and a negative delay counts as 0. The timers of
  Node.js, under which the component is tested, replace by 1 every delay that is not
  between 1 and \<open>2 ^ 31 - 1\<close>, and drop the fraction. Either way a delay of \<open>2 ^ 31\<close>
  milliseconds does not wait that long.
\<close>

datatype timer_host = Browser | NodeJS

definition IntegerPart :: "rat \<Rightarrow> int" where
  "IntegerPart x = (if 0 \<le> x then \<lfloor>x\<rfloor> else - \<lfloor>- x\<rfloor>)"

definition toLong :: "number \<Rightarrow> int" where
  "toLong v =
     (case v of
        Fin x \<Rightarrow> (let m = IntegerPart x mod 2 ^ 32 in if 2 ^ 31 \<le> m then m - 2 ^ 32 else m)
      | PosInf \<Rightarrow> 0
      | NegInf \<Rightarrow> 0
      | NaN \<Rightarrow> 0)"

definition timerDelay :: "timer_host \<Rightarrow> number \<Rightarrow> nat" where
  "timerDelay h v =
     (case h of
        Browser \<Rightarrow> (if toLong v < 0 then 0 else nat (toLong v))
      | NodeJS \<Rightarrow>
          (case v of
             Fin x \<Rightarrow> if 1 \<le> x \<and> x \<le> 2 ^ 31 - 1 then nat (IntegerPart x) else 1
           | PosInf \<Rightarrow> 1
           | NegInf \<Rightarrow> 1
           | NaN \<Rightarrow> 1))"

text \<open>
  The effect: \<^verbatim>\<open>setTimeout(..., timeout)\<close> and \<^verbatim>\<open>setInterval(..., 1000)\<close>. The
  property \<^verbatim>\<open>timeout\<close> is an optional number and has the default 10000.
\<close>

definition mountSpinner :: "timer_host \<Rightarrow> number option \<Rightarrow> spinner" where
  "mountSpinner h timeout =
     \<lparr>now = 0,
      timeoutId = Some (timerDelay h (case timeout of None \<Rightarrow> Fin 10000 | Some t \<Rightarrow> t)),
      interval = Some (timerDelay h (Fin 1000)),
      timeoutReached = False, loadingTime = 0\<rparr>"

text \<open>
  The timers that are due run their callbacks: the one-shot timer sets
  \<^verbatim>\<open>timeoutReached\<close> and is gone, the repeating timer adds 1 to \<^verbatim>\<open>loadingTime\<close> and is
  due again 1000 ms later.
\<close>

definition run_timers :: "spinner \<Rightarrow> spinner" where
  "run_timers s =
     (let s1 = (case timeoutId s of
                  Some d \<Rightarrow> if d \<le> now s then s\<lparr>timeoutReached := True, timeoutId := None\<rparr> else s
                | None \<Rightarrow> s)
      in case interval s1 of
           Some d \<Rightarrow>
             if d \<le> now s1 then s1\<lparr>loadingTime := loadingTime s1 + 1, interval := Some (d + 1000)\<rparr>
             else s1
         | None \<Rightarrow> s1)"

text \<open>One millisecond passes; \<open>advance n\<close> lets \<open>n\<close> milliseconds pass.\<close>

definition tick :: "spinner \<Rightarrow> spinner" where
  "tick s = run_timers (s\<lparr>now := now s + 1\<rparr>)"

primrec advance :: "nat \<Rightarrow> spinner \<Rightarrow> spinner" where
  "advance 0 s = s"
| "advance (Suc n) s = tick (advance n s)"

text \<open>The cleanup of the effect: \<^verbatim>\<open>clearTimeout\<close> and \<^verbatim>\<open>clearInterval\<close>.\<close>

definition unmount :: "spinner \<Rightarrow> spinner" where
  "unmount s = s\<lparr>timeoutId := None, interval := None\<rparr>"

section \<open>Example data\<close>

text \<open>A payment with every optional field absent; the examples below fill in fields.\<close>

definition sample_payment :: payment where
  "sample_payment =
     \<lparr>id_field = ''7b1e4c2a-payment'', amount = Fin 100, status = ''paid'',
      payment_method = ''card'', created_at = ''2025-01-15T10:00:00Z'',
      transaction_id = None, payment_reference = None, payment_provider = None,
      currency = ''USD'', profiles = None\<rparr>"

text \<open>The three payments of the scenario: paid 100, Pending 50, failed 25.\<close>

definition scenario_payments :: "payment list" where
  "scenario_payments =
     [sample_payment\<lparr>status := ''paid'', amount := Fin 100\<rparr>,
      sample_payment\<lparr>status := ''Pending'', amount := Fin 50\<rparr>,
      sample_payment\<lparr>status := ''failed'', amount := Fin 25\<rparr>]"

section \<open>Rounding to a double\<close>

text \<open>The binary exponent: \<open>ilog2\<close> finds the power of two at or below its argument.\<close>

lemma int_bounds_powi:
  fixes p :: int
  assumes "0 < p"
  shows "(2::rat) powi (bitlen p - 1) \<le> of_int p" and "of_int p < (2::rat) powi (bitlen p)"
proof -
  from bitlen_bounds[OF assms]
  have lo: "2 ^ nat (bitlen p - 1) \<le> p" and hi: "p < 2 ^ nat (bitlen p)"
    by auto
  have pos: "1 \<le> bitlen p"
    using assms by (auto simp: bitlen_alt_def)
  have "(of_int (2 ^ nat (bitlen p - 1)) :: rat) \<le> of_int p"
    using lo by (simp only: of_int_le_iff)
  then show "(2::rat) powi (bitlen p - 1) \<le> of_int p"
    using pos by (simp add: power_int_nonneg_exp)
  have "(of_int p :: rat) < of_int (2 ^ nat (bitlen p))"
    using hi by (simp only: of_int_less_iff)
  then show "of_int p < (2::rat) powi (bitlen p)"
    using pos by (simp add: power_int_nonneg_exp)
qed

lemma ilog2_window:
  assumes "0 < x" and q: "quotient_of x = (p, q)"
  shows "2 powi (bitlen p - bitlen q - 1) < x" and "x < 2 powi (bitlen p - bitlen q + 1)"
proof -
  have qpos: "0 < q"
    using q by (rule quotient_of_denom_pos)
  have xeq: "x = of_int p / of_int q"
    using q by (rule quotient_of_div)
  have ppos: "0 < p"
    using assms(1) qpos unfolding xeq by (simp add: zero_less_divide_iff)
  note P = int_bounds_powi[OF ppos] and Q = int_bounds_powi[OF qpos]
  have qr: "(0::rat) < of_int q"
    using qpos by simp
  have "2 powi (bitlen p - bitlen q - 1) * (of_int q :: rat)
        < 2 powi (bitlen p - bitlen q - 1) * 2 powi (bitlen q)"
    using Q(2) by simp
  also have "\<dots> = 2 powi (bitlen p - 1)"
    by (simp add: power_int_add[symmetric])
  also have "\<dots> \<le> of_int p"
    by (rule P(1))
  finally show "2 powi (bitlen p - bitlen q - 1) < x"
    unfolding xeq using qr by (simp add: pos_less_divide_eq)
  have "(of_int p :: rat) < 2 powi (bitlen p)"
    by (rule P(2))
  also have "\<dots> = 2 powi (bitlen p - bitlen q + 1) * 2 powi (bitlen q - 1)"
    by (simp add: power_int_add[symmetric])
  also have "\<dots> \<le> 2 powi (bitlen p - bitlen q + 1) * of_int q"
    using Q(1) by simp
  finally show "x < 2 powi (bitlen p - bitlen q + 1)"
    unfolding xeq using qr by (simp add: pos_divide_less_eq)
qed

lemma ilog2_correct:
  assumes "0 < x"
  shows "2 powi (ilog2 x) \<le> x \<and> x < 2 powi (ilog2 x + 1)"
proof -
  obtain p q where q: "quotient_of x = (p, q)"
    by (cases "quotient_of x")
  from ilog2_window[OF assms q] show ?thesis
    by (auto simp: ilog2_def q Let_def)
qed

lemma powi2_less_cancel:
  assumes "(2::rat) powi a < 2 powi b"
  shows "a < b"
proof (rule ccontr)
  assume "\<not> a < b"
  then have "b \<le> a" by simp
  then have "(2::rat) powi b \<le> 2 powi a"
    by (intro power_int_increasing) simp_all
  with assms show False by simp
qed

lemma ilog2_unique:
  assumes "0 < x" and "2 powi e \<le> x" and "x < 2 powi (e + 1)"
  shows "ilog2 x = e"
proof -
  from ilog2_correct[OF assms(1)]
  have lo: "2 powi (ilog2 x) \<le> x" and hi: "x < 2 powi (ilog2 x + 1)"
    by auto
  have "(2::rat) powi e < 2 powi (ilog2 x + 1)"
    using assms(2) hi by simp
  then have "e < ilog2 x + 1"
    by (rule powi2_less_cancel)
  moreover have "(2::rat) powi (ilog2 x) < 2 powi (e + 1)"
    using lo assms(3) by simp
  then have "ilog2 x < e + 1"
    by (rule powi2_less_cancel)
  ultimately show ?thesis by simp
qed

text \<open>
  Rounding a positive number whose binade is known: this is how \<open>fl\<close> is evaluated on
  a concrete number.
\<close>

lemma fl_binade:
  assumes "0 < x" and "2 powi e \<le> x" and "x < 2 powi (e + 1)" and "- 1022 \<le> e"
  shows "fl x = (let r = of_int (round_half_even (x / 2 powi (e - 52))) * 2 powi (e - 52)
                 in if 2 powi 1024 \<le> r then PosInf else Fin r)"
  using assms by (simp add: fl_def ilog2_unique[OF assms(1-3)] Let_def max_def)

lemma floor_rat_numeral_div:
  "\<lfloor>(numeral a :: rat) / numeral b\<rfloor> = numeral a div numeral b"
  using floor_divide_of_int_eq[of "numeral a" "numeral b", where ?'a = rat] by simp

lemmas fl_eval = round_half_even_def Let_def floor_rat_numeral_div

lemma fl_small_values:
  "fl 1 = Fin 1" "fl 3 = Fin 3" "fl 25 = Fin 25" "fl 50 = Fin 50" "fl 100 = Fin 100"
  by (simp_all add: fl_binade[where e = 0] fl_binade[where e = 1] fl_binade[where e = 4]
      fl_binade[where e = 5] fl_binade[where e = 6] fl_eval)

lemma fl_one_third:
  "fl (1 / 3) = Fin (6004799503160661 / 18014398509481984)"
  by (simp add: fl_binade[where e = "- 2"] fl_eval)

lemma fl_one_third_times_100:
  "fl (150119987579016525 / 4503599627370496) = Fin (2345624805922133 / 70368744177664)"
  by (simp add: fl_binade[where e = 5] fl_eval)

text \<open>
  Two facts about every number: a number between 0 and a power of two rounds to a number
  in the same range, and a natural number up to \<open>2 ^ 53\<close> is a double.
\<close>

lemma round_half_even_le:
  assumes "y \<le> of_int m"
  shows "round_half_even y \<le> m"
proof (cases "\<lfloor>y\<rfloor> = m")
  case True
  then have "of_int m \<le> y" by (metis of_int_floor_le)
  with assms have "y = of_int m" by simp
  then show ?thesis by (simp add: round_half_even_def)
next
  case False
  moreover have "\<lfloor>y\<rfloor> \<le> m" using assms by (simp add: floor_le_iff)
  ultimately have "\<lfloor>y\<rfloor> + 1 \<le> m" by simp
  then show ?thesis by (simp add: round_half_even_def Let_def)
qed

lemma round_half_even_nonneg:
  assumes "0 \<le> y"
  shows "0 \<le> round_half_even y"
proof -
  have "0 \<le> \<lfloor>y\<rfloor>" using assms by simp
  then show ?thesis by (simp add: round_half_even_def Let_def)
qed

lemma round_half_even_of_int [simp]: "round_half_even (of_int m) = m"
  by (simp add: round_half_even_def)

lemma fl_bounded:
  assumes "0 \<le> x" and "x \<le> 2 ^ k" and "k < 1024"
  shows "\<exists>r. fl x = Fin r \<and> 0 \<le> r \<and> r \<le> 2 ^ k"
proof (cases "x = 0")
  case True
  then show ?thesis by (simp add: fl_def)
next
  case False
  with assms(1) have pos: "0 < x" by simp
  define e where "e = max (ilog2 x) (- 1022)"
  define u :: rat where "u = 2 powi (e - 52)"
  define n where "n = round_half_even (x / u)"
  have upos: "0 < u" by (simp add: u_def)
  from ilog2_correct[OF pos] have "2 powi (ilog2 x) \<le> x" by simp
  also have "x \<le> 2 powi (int k)" using assms(2) by simp
  also have "(2::rat) powi (int k) < 2 powi (int k + 1)"
    by (intro power_int_strict_increasing) simp_all
  finally have "ilog2 x < int k + 1" by (rule powi2_less_cancel)
  then have ek: "e \<le> int k" by (simp add: e_def)
  have M: "(2::rat) powi (int k) = of_int (2 ^ nat (int k - e + 52)) * u"
  proof -
    have "(2::rat) powi (int k) = 2 powi (int k - e + 52) * 2 powi (e - 52)"
      by (simp add: power_int_add[symmetric])
    also have "(2::rat) powi (int k - e + 52) = 2 ^ nat (int k - e + 52)"
      using ek by (simp add: power_int_nonneg_exp)
    finally show ?thesis by (simp add: u_def)
  qed
  have "x / u \<le> of_int (2 ^ nat (int k - e + 52))"
    using assms(2) upos M by (simp add: pos_divide_le_eq)
  then have "n \<le> 2 ^ nat (int k - e + 52)"
    unfolding n_def by (rule round_half_even_le)
  then have "(of_int n :: rat) \<le> of_int (2 ^ nat (int k - e + 52))"
    by (simp only: of_int_le_iff)
  then have "of_int n * u \<le> of_int (2 ^ nat (int k - e + 52)) * u"
    using upos by (simp only: mult_le_cancel_right_pos)
  then have hi: "of_int n * u \<le> 2 ^ k"
    using M by simp
  have "0 \<le> x / u" using pos upos by simp
  then have "0 \<le> n" unfolding n_def by (rule round_half_even_nonneg)
  then have lo: "0 \<le> of_int n * u" using upos by simp
  have "(2::rat) ^ k < 2 powi 1024"
  proof -
    have "(2::rat) powi (int k) < 2 powi 1024"
      using assms(3) by (intro power_int_strict_increasing) simp_all
    then show ?thesis by simp
  qed
  with hi have fin: "\<not> 2 powi 1024 \<le> of_int n * u" by simp
  have "fl x = Fin (of_int n * u)"
    using pos fin by (simp add: fl_def Let_def e_def[symmetric] u_def[symmetric] n_def[symmetric])
  with lo hi show ?thesis by blast
qed

lemma fl_of_nat_exact:
  assumes "m \<le> 2 ^ 53"
  shows "fl (of_nat m) = Fin (of_nat m)"
proof (cases "m = 0")
  case True
  then show ?thesis by (simp add: fl_def)
next
  case False
  define x :: rat where "x = of_nat m"
  have pos: "0 < x" using False by (simp add: x_def)
  have one: "1 \<le> x" using False by (simp add: x_def)
  define e where "e = ilog2 x"
  from ilog2_correct[OF pos] have lo: "2 powi e \<le> x" and hi: "x < 2 powi (e + 1)"
    by (simp_all add: e_def)
  have "(2::rat) powi 0 < 2 powi (e + 1)" using one hi by simp
  then have e0: "0 \<le> e" using powi2_less_cancel by fastforce
  have xle: "x \<le> 2 powi 53"
  proof -
    have "(of_nat m :: rat) \<le> of_nat (2 ^ 53)" using assms by (simp only: of_nat_le_iff)
    then show ?thesis by (simp add: x_def)
  qed
  have "(2::rat) powi e < 2 powi 54"
  proof -
    have "(2::rat) powi e \<le> 2 powi 53" using lo xle by simp
    also have "(2::rat) powi 53 < 2 powi 54" by simp
    finally show ?thesis .
  qed
  then have e53: "e \<le> 53" using powi2_less_cancel by fastforce
  define u :: rat where "u = 2 powi (e - 52)"
  have upos: "0 < u" by (simp add: u_def)
  have "\<exists>j::int. x / u = of_int j"
  proof (cases "e = 53")
    case True
    then have "x = 2 powi 53" using lo xle by simp
    then have "x / u = of_int (2 ^ 52)" using True by (simp add: u_def)
    then show ?thesis by blast
  next
    case False
    with e53 have "e \<le> 52" by simp
    then have "1 / u = 2 powi (52 - e)"
      by (simp add: u_def power_int_diff)
    also have "\<dots> = of_int (2 ^ nat (52 - e))"
      using \<open>e \<le> 52\<close> by (simp add: power_int_nonneg_exp)
    finally have inv: "1 / u = of_int (2 ^ nat (52 - e))" .
    have "x / u = x * (1 / u)"
      by simp
    then have "x / u = of_int (int m * 2 ^ nat (52 - e))"
      unfolding inv by (simp add: x_def)
    then show ?thesis by blast
  qed
  then obtain j :: int where j: "x / u = of_int j" by blast
  then have r: "of_int (round_half_even (x / u)) * u = x"
    using upos by (simp add: field_simps)
  have "x < 2 powi 1024"
  proof -
    have "x \<le> 2 powi 53" by (rule xle)
    also have "(2::rat) powi 53 < 2 powi 1024" by simp
    finally show ?thesis .
  qed
  then have "fl x = Fin x"
    using pos e0 r
    by (simp add: fl_def Let_def e_def[symmetric] max_def u_def[symmetric])
  then show ?thesis by (simp add: x_def)
qed

section \<open>Printing in fixed notation\<close>

lemma digit_0 [simp]: "digit 0 = CHR ''0''"
  by (simp add: digit_def)

lemma decimal_small: "n < 10 \<Longrightarrow> decimal n = [digit n]"
  by (simp add: decimal.simps)

lemma decimal_step: "10 \<le> n \<Longrightarrow> decimal n = decimal (n div 10) @ [digit (n mod 10)]"
  by (subst decimal.simps) simp

lemma length_decimal_pos: "0 < length (decimal n)"
  by (subst decimal.simps) simp

text \<open>The digits of a number printed by \<open>toFixed\<close> with one and with two decimal places.\<close>

lemma fixed_2:
  "(let m = decimal n; k = length m;
        m' = (if k \<le> 2 then replicate (2 + 1 - k) CHR ''0'' @ m else m);
        k' = (if k \<le> 2 then 2 + 1 else k)
    in take (k' - 2) m' @ ''.'' @ drop (k' - 2) m')
   = decimal (n div 100) @ ''.'' @ [digit (n div 10 mod 10), digit (n mod 10)]"
proof -
  consider "n < 10" | "10 \<le> n" "n < 100" | "100 \<le> n" by linarith
  then show ?thesis
  proof cases
    case 1
    then show ?thesis by (simp add: decimal_small Let_def)
  next
    case 2
    then have "n div 10 < 10" by simp
    with 2 show ?thesis
      by (simp add: decimal_step decimal_small Let_def)
  next
    case 3
    then have a: "10 \<le> n" and b: "10 \<le> n div 10" by simp_all
    have c: "n div 10 div 10 = n div 100"
      by (simp add: div_mult2_eq[symmetric])
    have "decimal n = decimal (n div 100) @ [digit (n div 10 mod 10), digit (n mod 10)]"
      by (simp add: decimal_step[OF a] decimal_step[OF b] c)
    then show ?thesis
      using length_decimal_pos[of "n div 100"] by (simp add: Let_def)
  qed
qed

lemma toFixed_2_digits:
  assumes "0 \<le> x" and "x < 10 ^ 21"
  shows "toFixed 2 (Fin x) =
           decimal (nat \<lfloor>x * 100 + 1 / 2\<rfloor> div 100) @ ''.'' @
           [digit (nat \<lfloor>x * 100 + 1 / 2\<rfloor> div 10 mod 10), digit (nat \<lfloor>x * 100 + 1 / 2\<rfloor> mod 10)]"
proof -
  have "toFixed 2 (Fin x) =
        (let m = decimal (nat \<lfloor>x * 100 + 1 / 2\<rfloor>); k = length m;
             m' = (if k \<le> 2 then replicate (2 + 1 - k) CHR ''0'' @ m else m);
             k' = (if k \<le> 2 then 2 + 1 else k)
         in take (k' - 2) m' @ ''.'' @ drop (k' - 2) m')"
    using assms by (simp add: toFixed_def Let_def)
  then show ?thesis
    by (simp only: fixed_2)
qed

lemma fixed_1:
  "(let m = decimal n; k = length m;
        m' = (if k \<le> 1 then replicate (1 + 1 - k) CHR ''0'' @ m else m);
        k' = (if k \<le> 1 then 1 + 1 else k)
    in take (k' - 1) m' @ ''.'' @ drop (k' - 1) m')
   = decimal (n div 10) @ ''.'' @ [digit (n mod 10)]"
proof (cases "n < 10")
  case True
  then show ?thesis by (simp add: decimal_small Let_def)
next
  case False
  then have "decimal n = decimal (n div 10) @ [digit (n mod 10)]"
    by (simp add: decimal_step)
  then show ?thesis
    using length_decimal_pos[of "n div 10"] by (simp add: Let_def)
qed

lemma toFixed_1_digits:
  assumes "0 \<le> x" and "x < 10 ^ 21"
  shows "toFixed 1 (Fin x) =
           decimal (nat \<lfloor>x * 10 + 1 / 2\<rfloor> div 10) @ ''.'' @ [digit (nat \<lfloor>x * 10 + 1 / 2\<rfloor> mod 10)]"
proof -
  have "toFixed 1 (Fin x) =
        (let m = decimal (nat \<lfloor>x * 10 + 1 / 2\<rfloor>); k = length m;
             m' = (if k \<le> 1 then replicate (1 + 1 - k) CHR ''0'' @ m else m);
             k' = (if k \<le> 1 then 1 + 1 else k)
         in take (k' - 1) m' @ ''.'' @ drop (k' - 1) m')"
    using assms by (simp add: toFixed_def Let_def)
  then show ?thesis
    by (simp only: fixed_1)
qed

lemma numberToString_1e21: "numberToString 1000000000000000000000 = ''1e+21''"
proof -
  have n0: "length (decimal (nat \<lfloor>(10::rat) ^ 21\<rfloor>)) = 22"
    by (simp add: decimal.simps)
  have c: "candidate (10 ^ 21) 22 1 = Some 1"
    by (simp add: candidate_def roundtrips_def Let_def)
  have fuel: "(17::nat) = Suc 16"
    by simp
  have s: "shortest (10 ^ 21) 22 1 (Suc 16) = (1, 1)"
    by (simp only: shortest.simps c option.case)
  have "numberToString (10 ^ 21) = ''1e+21''"
    unfolding numberToString_def Let_def n0 fuel s by (simp add: decimal.simps digit_def)
  then show ?thesis
    by simp
qed

section \<open>Properties of the badge variant\<close>

text \<open>
  C4: the classification is an exact, case-sensitive match on the raw string. The variant
  is \<^verbatim>\<open>default\<close> (primary) exactly for \<^verbatim>\<open>paid\<close> and \<^verbatim>\<open>Completed\<close>, \<^verbatim>\<open>secondary\<close>
  exactly for \<^verbatim>\<open>pending\<close> and \<^verbatim>\<open>Pending\<close>, \<^verbatim>\<open>destructive\<close> exactly for
  \<^verbatim>\<open>failed\<close> and \<^verbatim>\<open>Failed\<close>, and \<^verbatim>\<open>outline\<close> (neutral) for every other string;
  other casings such as \<^verbatim>\<open>PAID\<close> and \<^verbatim>\<open>completed\<close> are neutral.
\<close>

theorem getStatusVariant_exact_match:
  "(getStatusVariant st = ''default'') = (st = ''paid'' \<or> st = ''Completed'')
   \<and> (getStatusVariant st = ''secondary'') = (st = ''pending'' \<or> st = ''Pending'')
   \<and> (getStatusVariant st = ''destructive'') = (st = ''failed'' \<or> st = ''Failed'')
   \<and> (getStatusVariant st = ''outline'') =
       (st \<noteq> ''paid'' \<and> st \<noteq> ''Completed'' \<and> st \<noteq> ''pending'' \<and> st \<noteq> ''Pending''
        \<and> st \<noteq> ''failed'' \<and> st \<noteq> ''Failed'')
   \<and> getStatusVariant ''PAID'' = ''outline''
   \<and> getStatusVariant ''completed'' = ''outline''"
  by (simp add: getStatusVariant_def)

section \<open>Properties of the fetch\<close>

text \<open>
  C8: whichever way the fetch fails, by a rejected promise or by an error returned with
  the response (with or without data beside it), the component mounted with that fetch
  ends with the message of the error in \<^verbatim>\<open>error\<close>, with \<^verbatim>\<open>isLoading\<close> false and with
  an empty list of payments. In place of the table the page then shows the message (when
  the message is the empty string, which is falsy, the notice that there are no
  payments).
\<close>

theorem fetch_error_state:
  "error (mount (Rejected msg)) = Some msg
   \<and> \<not> isLoading (mount (Rejected msg))
   \<and> payments (mount (Rejected msg)) = []
   \<and> error (mount (Resolved data (Some msg))) = Some msg
   \<and> \<not> isLoading (mount (Resolved data (Some msg)))
   \<and> payments (mount (Resolved data (Some msg))) = []
   \<and> tableView (mount (Rejected msg)) = (if msg = [] then NoPaymentsFound else ErrorMessage msg)
   \<and> tableView (mount (Resolved data (Some msg))) =
       (if msg = [] then NoPaymentsFound else ErrorMessage msg)"
  by (simp add: mount_def fetchPayments_def initial_state_def tableView_def tableRows_def
      filteredPayments_def or_empty_def)

text \<open>
  The \<^verbatim>\<open>catch\<close> block does not touch the list: the list is empty after a failed fetch
  because it was empty before.
\<close>

lemma fetchPayments_error_keeps_payments:
  "payments (fetchPayments (Rejected msg) s) = payments s"
  "payments (fetchPayments (Resolved data (Some msg)) s) = payments s"
  by (simp_all add: fetchPayments_def)

section \<open>Properties of the search filter\<close>

lemma includes_str_Nil [simp]: "includes_str s []"
  by (cases s) simp_all

lemma toLowerCase_Nil [simp]: "toLowerCase [] = []"
  by (simp add: toLowerCase_def)

lemma searchMatch_empty:
  "searchMatch [] p =
     (transaction_id p \<noteq> None \<or> payment_reference p \<noteq> None
      \<or> (case profiles p of None \<Rightarrow> False | Some pr \<Rightarrow> email pr \<noteq> []))"
  by (simp add: searchMatch_def split: option.splits)

text \<open>
  With the empty search term the filter keeps, in their order, the payments that have a
  transaction id, a payment reference or a profile with a non-empty email, and only
  those.
\<close>

lemma filteredPayments_empty_term:
  "filteredPayments [] ps =
     filter (\<lambda>p. transaction_id p \<noteq> None \<or> payment_reference p \<noteq> None
                \<or> (case profiles p of None \<Rightarrow> False | Some pr \<Rightarrow> email pr \<noteq> [])) ps"
  unfolding filteredPayments_def by (simp add: searchMatch_empty[abs_def])

text \<open>
  C3: the empty search term should give back the list as it is. The code does not: a
  payment without transaction id, payment reference and profile matches no term, the
  empty one included, and the list holding just that payment is filtered to the empty
  list.
\<close>

theorem filteredPayments_empty_term_drops_orphan:
  "filteredPayments [] [sample_payment] = []
   \<and> filteredPayments [] [sample_payment] \<noteq> [sample_payment]"
  by (simp add: filteredPayments_def searchMatch_def sample_payment_def)

section \<open>Properties of the provider link\<close>

text \<open>
  C7, as the code has it: there is no link exactly when the provider is not
  \<^verbatim>\<open>paystack\<close>, or the reference is absent, or the reference is the empty string; in
  every other case the link is the dashboard URL followed by the reference as it is.
\<close>

theorem getPaymentProviderLink_cases:
  "(getPaymentProviderLink p = None) =
     (payment_provider p \<noteq> Some ''paystack'' \<or> payment_reference p = None
      \<or> payment_reference p = Some [])
   \<and> (\<forall>r. payment_provider p = Some ''paystack'' \<longrightarrow> payment_reference p = Some r \<longrightarrow> r \<noteq> [] \<longrightarrow>
          getPaymentProviderLink p = Some (''https://dashboard.paystack.com/#/transactions/'' @ r))"
  by (auto simp: getPaymentProviderLink_def split: option.splits)

theorem getPaymentProviderLink_cases_witness:
  "getPaymentProviderLink
     (sample_payment\<lparr>payment_provider := Some ''paystack'', payment_reference := Some ''T_4f9''\<rparr>)
   = Some ''https://dashboard.paystack.com/#/transactions/T_4f9''"
  using getPaymentProviderLink_cases
    [of "sample_payment\<lparr>payment_provider := Some ''paystack'', payment_reference := Some ''T_4f9''\<rparr>"]
  by simp

text \<open>
  C7 in the wording of the specification, where only an absent reference gives no link,
  fails for a reference that is present and empty, with the provider \<^verbatim>\<open>paystack\<close>:
  there is no link then, not the bare dashboard URL.
\<close>

theorem getPaymentProviderLink_empty_reference:
  "getPaymentProviderLink
     (sample_payment\<lparr>payment_provider := Some ''paystack'', payment_reference := Some []\<rparr>) = None"
  by (simp add: getPaymentProviderLink_def)

section \<open>Properties of the summary\<close>

text \<open>
  C10: the summary is computed from the list of payments alone. Two states that differ
  in the search term only have the same seven aggregates and show the same texts in the
  summary cards; what differs is the rows of the table, which are the payments filtered
  by each term.
\<close>

theorem aggregate_ignores_searchTerm:
  "aggregate (setSearchTerm t1 s) = aggregate (setSearchTerm t2 s)
   \<and> summaryCards (setSearchTerm t1 s) = summaryCards (setSearchTerm t2 s)
   \<and> tableRows (setSearchTerm t1 s) = filteredPayments t1 (payments s)
   \<and> tableRows (setSearchTerm t2 s) = filteredPayments t2 (payments s)"
  by (simp add: aggregate_def summaryCards_def setSearchTerm_def tableRows_def)

section \<open>Properties of the aggregates\<close>

lemma toFixed_eval:
  "toFixed 2 (Fin 100) = ''100.00''" "toFixed 2 (Fin 50) = ''50.00''" "toFixed 2 (Fin 25) = ''25.00''"
  by (simp_all add: toFixed_def Let_def decimal.simps digit_def floor_rat_numeral_div)

lemma toFixed_rate:
  "toFixed 1 (Fin (2345624805922133 / 70368744177664)) = ''33.3''"
  by (simp add: toFixed_def Let_def decimal.simps digit_def floor_rat_numeral_div)

lemma foldl_cond:
  "foldl (\<lambda>s p. if P p then f s (g p) else s) a ps = foldl f a (map g (filter P ps))"
  by (induction ps arbitrary: a) simp_all

lemma toLowerCase_statuses:
  "toLowerCase ''paid'' = ''paid''" "toLowerCase ''Pending'' = ''pending''"
  "toLowerCase ''failed'' = ''failed''"
  by (simp_all add: toLowerCase_def)

lemma scenario_revenue:
  "totalRevenue scenario_payments = Fin 100"
  "pendingRevenue scenario_payments = Fin 50"
  "failedRevenue scenario_payments = Fin 25"
  by (simp_all add: totalRevenue_def pendingRevenue_def failedRevenue_def scenario_payments_def
      toLowerCase_statuses fl_small_values)

lemma scenario_counts:
  "completedCount scenario_payments = 1"
  "pendingCount scenario_payments = 1"
  "failedCount scenario_payments = 1"
  by (simp_all add: completedCount_def pendingCount_def failedCount_def scenario_payments_def
      toLowerCase_statuses)

lemma scenario_rate:
  "successRate scenario_payments = ''33.3%''"
proof -
  have len: "length scenario_payments = 3"
    by (simp add: scenario_payments_def)
  have rate:
    "num_mul (num_div (number_of_nat (completedCount scenario_payments))
        (number_of_nat (length scenario_payments))) (Fin 100)
     = Fin (2345624805922133 / 70368744177664)"
    by (simp add: scenario_counts len number_of_nat_def fl_small_values fl_one_third
        fl_one_third_times_100)
  show ?thesis
    unfolding successRate_def rate toFixed_rate by (simp add: len)
qed

text \<open>
  For a non-empty list of at most \<open>2 ^ 53\<close> payments (an array has fewer than
  \<open>2 ^ 32\<close> elements) the rate is a number between 0 and 128, and the card shows the
  digits of its integer part, a point, one decimal and the percent sign.
\<close>

lemma successRate_one_decimal:
  assumes "ps \<noteq> []" and "length ps \<le> 2 ^ 53"
  shows "\<exists>n. successRate ps = decimal (n div 10) @ ''.'' @ [digit (n mod 10)] @ ''%''"
proof -
  define c where "c = completedCount ps"
  define l where "l = length ps"
  have cl: "c \<le> l"
    by (simp add: c_def l_def completedCount_def)
  have lpos: "0 < l"
    using assms(1) by (simp add: l_def)
  have l53: "l \<le> 2 ^ 53"
    using assms(2) by (simp add: l_def)
  have nc: "number_of_nat c = Fin (of_nat c)" and nl: "number_of_nat l = Fin (of_nat l)"
    using cl l53 by (simp_all add: number_of_nat_def fl_of_nat_exact)
  have q: "0 \<le> (of_nat c :: rat) / of_nat l" "(of_nat c :: rat) / of_nat l \<le> 2 ^ 0"
    using cl lpos by simp_all
  from fl_bounded[OF q] obtain r1 where
    r1: "fl (of_nat c / of_nat l) = Fin r1" "0 \<le> r1" "r1 \<le> 1"
    by auto
  have "0 \<le> r1 * 100" "r1 * 100 \<le> 2 ^ 7"
    using r1(2,3) by simp_all
  from fl_bounded[OF this] obtain r2 where
    r2: "fl (r1 * 100) = Fin r2" "0 \<le> r2" "r2 \<le> 128"
    by auto
  have "num_mul (num_div (number_of_nat c) (number_of_nat l)) (Fin 100) = Fin r2"
    using lpos by (simp add: nc nl r1(1) r2(1))
  then have sr: "successRate ps = toFixed 1 (Fin r2) @ ''%''"
    using lpos by (simp add: successRate_def c_def l_def)
  have "r2 < 10 ^ 21"
    using r2(3) by simp
  with r2(2) have tf: "toFixed 1 (Fin r2) =
      decimal (nat \<lfloor>r2 * 10 + 1 / 2\<rfloor> div 10) @ ''.'' @ [digit (nat \<lfloor>r2 * 10 + 1 / 2\<rfloor> mod 10)]"
    by (rule toFixed_1_digits)
  show ?thesis
    unfolding sr tf by (intro exI[of _ "nat \<lfloor>r2 * 10 + 1 / 2\<rfloor>"]) simp
qed

text \<open>
  C1: each revenue is the sum, taken from the left and starting at 0, of the amounts of
  the payments whose lower-cased status is in the bucket (\<^verbatim>\<open>paid\<close> or
  \<^verbatim>\<open>completed\<close>; \<^verbatim>\<open>pending\<close>; \<^verbatim>\<open>failed\<close>), and each count is the number of
  payments of the same bucket. The success rate is \<^verbatim>\<open>0%\<close> for the empty list and
  otherwise \<^verbatim>\<open>completedCount / length * 100\<close> printed by \<^verbatim>\<open>toFixed(1)\<close> with
  \<^verbatim>\<open>%\<close> after it. For the three payments paid 100, Pending 50 and failed 25 the
  revenues print as 100.00, 50.00 and 25.00, the counts are 1, 1 and 1 and the success
  rate is \<^verbatim>\<open>33.3%\<close>.
\<close>

theorem aggregate_buckets:
  "totalRevenue ps =
     foldl num_add (Fin 0)
       (map amount (filter (\<lambda>p. toLowerCase (status p) = ''paid''
                                 \<or> toLowerCase (status p) = ''completed'') ps))
   \<and> pendingRevenue ps =
     foldl num_add (Fin 0) (map amount (filter (\<lambda>p. toLowerCase (status p) = ''pending'') ps))
   \<and> failedRevenue ps =
     foldl num_add (Fin 0) (map amount (filter (\<lambda>p. toLowerCase (status p) = ''failed'') ps))
   \<and> completedCount ps =
     length (filter (\<lambda>p. toLowerCase (status p) = ''paid''
                          \<or> toLowerCase (status p) = ''completed'') ps)
   \<and> pendingCount ps = length (filter (\<lambda>p. toLowerCase (status p) = ''pending'') ps)
   \<and> failedCount ps = length (filter (\<lambda>p. toLowerCase (status p) = ''failed'') ps)
   \<and> successRate [] = ''0%''
   \<and> successRate (p # ps) =
       toFixed 1
         (num_mul (num_div (number_of_nat (completedCount (p # ps)))
                     (number_of_nat (length (p # ps)))) (Fin 100)) @ ''%''
   \<and> totalRevenue scenario_payments = Fin 100
   \<and> toFixed 2 (totalRevenue scenario_payments) = ''100.00''
   \<and> pendingRevenue scenario_payments = Fin 50
   \<and> toFixed 2 (pendingRevenue scenario_payments) = ''50.00''
   \<and> failedRevenue scenario_payments = Fin 25
   \<and> toFixed 2 (failedRevenue scenario_payments) = ''25.00''
   \<and> completedCount scenario_payments = 1
   \<and> pendingCount scenario_payments = 1
   \<and> failedCount scenario_payments = 1
   \<and> successRate scenario_payments = ''33.3%''"
proof -
  have sums:
    "totalRevenue ps =
       foldl num_add (Fin 0)
         (map amount (filter (\<lambda>p. toLowerCase (status p) = ''paid''
                                   \<or> toLowerCase (status p) = ''completed'') ps))"
    "pendingRevenue ps =
       foldl num_add (Fin 0) (map amount (filter (\<lambda>p. toLowerCase (status p) = ''pending'') ps))"
    "failedRevenue ps =
       foldl num_add (Fin 0) (map amount (filter (\<lambda>p. toLowerCase (status p) = ''failed'') ps))"
    unfolding totalRevenue_def pendingRevenue_def failedRevenue_def by (rule foldl_cond)+
  have rate: "successRate [] = ''0%''"
    "successRate (p # ps) =
       toFixed 1
         (num_mul (num_div (number_of_nat (completedCount (p # ps)))
                     (number_of_nat (length (p # ps)))) (Fin 100)) @ ''%''"
    by (simp_all add: successRate_def)
  show ?thesis
    unfolding scenario_revenue scenario_counts scenario_rate toFixed_eval
    using sums rate by (simp add: completedCount_def pendingCount_def failedCount_def)
qed

lemma counts_step:
  "completedCount ps + pendingCount ps + failedCount ps
   + length (filter (\<lambda>p. \<not> (toLowerCase (status p) = ''paid'' \<or> toLowerCase (status p) = ''completed''
        \<or> toLowerCase (status p) = ''pending'' \<or> toLowerCase (status p) = ''failed'')) ps)
   = length ps"
  by (induction ps) (auto simp: completedCount_def pendingCount_def failedCount_def)

text \<open>
  C2: the three counts add up to at most the number of payments, and to exactly that
  number when, and only when, the lower-cased status of every payment is one of
  \<^verbatim>\<open>paid\<close>, \<^verbatim>\<open>completed\<close>, \<^verbatim>\<open>pending\<close> and \<^verbatim>\<open>failed\<close>.
\<close>

theorem counts_le_total:
  "completedCount ps + pendingCount ps + failedCount ps \<le> length ps
   \<and> ((completedCount ps + pendingCount ps + failedCount ps = length ps) =
        (\<forall>p \<in> set ps. toLowerCase (status p) = ''paid'' \<or> toLowerCase (status p) = ''completed''
            \<or> toLowerCase (status p) = ''pending'' \<or> toLowerCase (status p) = ''failed''))"
proof -
  let ?other = "filter (\<lambda>p. \<not> (toLowerCase (status p) = ''paid'' \<or> toLowerCase (status p) = ''completed''
        \<or> toLowerCase (status p) = ''pending'' \<or> toLowerCase (status p) = ''failed'')) ps"
  have sum: "completedCount ps + pendingCount ps + failedCount ps + length ?other = length ps"
    by (rule counts_step)
  have "(length ?other = 0) =
        (\<forall>p \<in> set ps. toLowerCase (status p) = ''paid'' \<or> toLowerCase (status p) = ''completed''
            \<or> toLowerCase (status p) = ''pending'' \<or> toLowerCase (status p) = ''failed'')"
    by (simp add: filter_empty_conv)
  with sum show ?thesis by linarith
qed

theorem counts_le_total_witness:
  "completedCount scenario_payments + pendingCount scenario_payments + failedCount scenario_payments
     = length scenario_payments
   \<and> completedCount (sample_payment\<lparr>status := ''refunded''\<rparr> # scenario_payments)
      + pendingCount (sample_payment\<lparr>status := ''refunded''\<rparr> # scenario_payments)
      + failedCount (sample_payment\<lparr>status := ''refunded''\<rparr> # scenario_payments)
     < length (sample_payment\<lparr>status := ''refunded''\<rparr> # scenario_payments)"
  using counts_le_total[of scenario_payments]
    counts_le_total[of "sample_payment\<lparr>status := ''refunded''\<rparr> # scenario_payments"]
  by (simp add: scenario_payments_def toLowerCase_def)

section \<open>Properties of the customer name\<close>

lemma stripLeading_Nil [simp]: "stripLeading ws [] = []"
proof -
  have "find (\<lambda>w. w \<noteq> [] \<and> take (length w) [] = w) ws = None"
    by (auto simp: find_None_iff)
  then show ?thesis
    by (simp add: stripLeading.simps)
qed

text \<open>What is left starts with no character of \<open>ws\<close>.\<close>

lemma stripLeading_done:
  "find (\<lambda>w. w \<noteq> [] \<and> take (length w) (stripLeading ws s) = w) ws = None"
proof (induction ws s rule: stripLeading.induct)
  case (1 ws s)
  show ?case
  proof (cases "find (\<lambda>w. w \<noteq> [] \<and> take (length w) s = w) ws")
    case None
    then show ?thesis
      by (subst stripLeading.simps) simp
  next
    case (Some w)
    with "1.IH" show ?thesis
      by (subst stripLeading.simps) simp
  qed
qed

text \<open>When nothing is left, the string was made of characters of \<open>ws\<close>.\<close>

lemma stripLeading_empty:
  "stripLeading ws s = [] \<Longrightarrow> \<exists>vs. set vs \<subseteq> set ws \<and> s = concat vs"
proof (induction ws s rule: stripLeading.induct)
  case (1 ws s)
  show ?case
  proof (cases "find (\<lambda>w. w \<noteq> [] \<and> take (length w) s = w) ws")
    case None
    with "1.prems" have "s = []"
      by (simp add: stripLeading.simps)
    then have "set [] \<subseteq> set ws \<and> s = concat []"
      by simp
    then show ?thesis
      by blast
  next
    case (Some w)
    then have w: "w \<in> set ws" and t: "take (length w) s = w"
      by (auto simp: find_Some_iff)
    from Some "1.prems" have "stripLeading ws (drop (length w) s) = []"
      by (simp add: stripLeading.simps)
    with "1.IH"[OF Some] obtain vs where vs: "set vs \<subseteq> set ws" "drop (length w) s = concat vs"
      by blast
    have "s = take (length w) s @ drop (length w) s"
      by simp
    with t vs(2) have "s = concat (w # vs)"
      by simp
    moreover have "set (w # vs) \<subseteq> set ws"
      using w vs(1) by simp
    ultimately show ?thesis
      by blast
  qed
qed

lemma concat_starts:
  "set us \<subseteq> A \<Longrightarrow> concat us \<noteq> [] \<Longrightarrow> \<exists>w \<in> A. w \<noteq> [] \<and> take (length w) (concat us) = w"
proof (induction us)
  case Nil
  then show ?case by simp
next
  case (Cons u us)
  show ?case
  proof (cases "u = []")
    case True
    with Cons show ?thesis by simp
  next
    case False
    moreover have "u \<in> A" using Cons.prems(1) by simp
    ultimately show ?thesis by auto
  qed
qed

lemma trimEnd_empty:
  assumes "trimEnd t = []" and "t \<noteq> []"
  shows "\<exists>w \<in> set whiteSpace. w \<noteq> [] \<and> take (length w) t = w"
proof -
  from assms(1) have "stripLeading (map rev whiteSpace) (rev t) = []"
    by (simp add: trimEnd_def)
  then obtain vs where vs: "set vs \<subseteq> set (map rev whiteSpace)" "rev t = concat vs"
    using stripLeading_empty by blast
  have "t = rev (concat vs)"
    using vs(2) by (metis rev_rev_ident)
  then have t: "t = concat (map rev (rev vs))"
    by (simp add: rev_concat)
  have "set (map rev (rev vs)) \<subseteq> set whiteSpace"
    using vs(1) by auto
  from concat_starts[OF this] assms(2) t show ?thesis
    by metis
qed

text \<open>
  Trimming leaves nothing exactly when the string is made of white space only: what
  \<^verbatim>\<open>trimStart\<close> leaves starts with no white space, so \<^verbatim>\<open>trimEnd\<close> cannot use it up.
\<close>

lemma trim_empty_iff: "(trim s = []) = onlyWhiteSpace s"
proof
  assume e: "trim s = []"
  show "onlyWhiteSpace s"
  proof (rule ccontr)
    assume "\<not> onlyWhiteSpace s"
    then have ne: "trimStart s \<noteq> []"
      by (simp add: onlyWhiteSpace_def)
    from e have "trimEnd (trimStart s) = []"
      by (simp add: trim_def)
    from trimEnd_empty[OF this ne] obtain w where
      w: "w \<in> set whiteSpace" "w \<noteq> []" "take (length w) (trimStart s) = w"
      by blast
    have "find (\<lambda>w. w \<noteq> [] \<and> take (length w) (trimStart s) = w) whiteSpace = None"
      unfolding trimStart_def by (rule stripLeading_done)
    with w show False
      by (auto simp: find_None_iff)
  qed
next
  assume "onlyWhiteSpace s"
  then show "trim s = []"
    by (simp add: onlyWhiteSpace_def trim_def trimEnd_def)
qed

text \<open>A byte that is part of no white space character is not trimmed away.\<close>

lemma stripLeading_keeps:
  "c \<in> set s \<Longrightarrow> c \<notin> set (concat ws) \<Longrightarrow> c \<in> set (stripLeading ws s)"
proof (induction ws s rule: stripLeading.induct)
  case (1 ws s)
  show ?case
  proof (cases "find (\<lambda>w. w \<noteq> [] \<and> take (length w) s = w) ws")
    case None
    with "1.prems" show ?thesis
      by (simp add: stripLeading.simps)
  next
    case (Some w)
    then have w: "w \<in> set ws" and t: "take (length w) s = w"
      by (auto simp: find_Some_iff)
    have "c \<notin> set w"
      using w "1.prems"(2) by auto
    moreover have "set s = set (take (length w) s) \<union> set (drop (length w) s)"
      by (metis append_take_drop_id set_append)
    ultimately have "c \<in> set (drop (length w) s)"
      using "1.prems"(1) t by simp
    from "1.IH"[OF Some this "1.prems"(2)] Some show ?thesis
      by (simp add: stripLeading.simps)
  qed
qed

lemma trim_keeps:
  assumes "c \<in> set s" and "c \<notin> set (concat whiteSpace)"
  shows "c \<in> set (trim s)"
proof -
  have "c \<in> set (rev (trimStart s))"
    using stripLeading_keeps[OF assms] by (simp add: trimStart_def)
  moreover have "c \<notin> set (concat (map rev whiteSpace))"
    using assms(2) by auto
  ultimately have "c \<in> set (stripLeading (map rev whiteSpace) (rev (trimStart s)))"
    by (rule stripLeading_keeps)
  then show ?thesis
    by (simp add: trim_def trimEnd_def)
qed

lemmas trim_eval = trim_def trimStart_def trimEnd_def stripLeading.simps whiteSpace_def

lemma trim_examples:
  "trim '' '' = []" "trim [CHR 0xC2, CHR 0xA0] = []" "trim '' Ada Lovelace  '' = ''Ada Lovelace''"
  "trim ''Ada '' = ''Ada''"
  by (simp_all add: trim_eval)

text \<open>
  C5, as the code has it: without a profile the name is \<^verbatim>\<open>Unknown\<close>; with a
  profile it is the trimmed \<^verbatim>\<open>first last\<close> when one of the two names is non-empty and
  the email otherwise. The name is the empty string in two cases only, both with a
  profile: one of the names is non-empty and the two names joined by a space are made
  of white space only, or both names are absent or empty and the email is the empty
  string. In particular the name is not empty when one of the names has a byte that is
  part of no white space character, as every letter and digit has. The function is
  total: no input makes it throw.
\<close>

theorem getCustomerName_cases:
  "(profiles p = None \<longrightarrow> getCustomerName p = ''Unknown'')
   \<and> (\<forall>pr. profiles p = Some pr \<longrightarrow>
         getCustomerName p =
           (if or_empty (first_name pr) \<noteq> [] \<or> or_empty (last_name pr) \<noteq> []
            then trim (or_empty (first_name pr) @ '' '' @ or_empty (last_name pr))
            else email pr))
   \<and> (getCustomerName p = []) =
       (\<exists>pr. profiles p = Some pr \<and>
          (if or_empty (first_name pr) \<noteq> [] \<or> or_empty (last_name pr) \<noteq> []
           then onlyWhiteSpace (or_empty (first_name pr) @ '' '' @ or_empty (last_name pr))
           else email pr = []))
   \<and> (\<forall>pr c. profiles p = Some pr \<longrightarrow>
         c \<in> set (or_empty (first_name pr) @ or_empty (last_name pr)) \<longrightarrow>
         c \<notin> set (concat whiteSpace) \<longrightarrow> getCustomerName p \<noteq> [])"
proof (intro conjI allI impI)
  assume "profiles p = None"
  then show "getCustomerName p = ''Unknown''"
    by (simp add: getCustomerName_def)
next
  fix pr assume "profiles p = Some pr"
  then show "getCustomerName p =
           (if or_empty (first_name pr) \<noteq> [] \<or> or_empty (last_name pr) \<noteq> []
            then trim (or_empty (first_name pr) @ '' '' @ or_empty (last_name pr))
            else email pr)"
    by (simp add: getCustomerName_def Let_def)
next
  show "(getCustomerName p = []) =
       (\<exists>pr. profiles p = Some pr \<and>
          (if or_empty (first_name pr) \<noteq> [] \<or> or_empty (last_name pr) \<noteq> []
           then onlyWhiteSpace (or_empty (first_name pr) @ '' '' @ or_empty (last_name pr))
           else email pr = []))"
  proof (cases "profiles p")
    case None
    then show ?thesis
      by (simp add: getCustomerName_def)
  next
    case (Some pr)
    then show ?thesis
      by (simp add: getCustomerName_def Let_def trim_empty_iff)
  qed
next
  fix pr c
  assume pr: "profiles p = Some pr"
    and c: "c \<in> set (or_empty (first_name pr) @ or_empty (last_name pr))"
    and v: "c \<notin> set (concat whiteSpace)"
  from c have "c \<in> set (or_empty (first_name pr) @ '' '' @ or_empty (last_name pr))"
    by auto
  from trim_keeps[OF this v]
  have "trim (or_empty (first_name pr) @ '' '' @ or_empty (last_name pr)) \<noteq> []"
    by auto
  moreover have "or_empty (first_name pr) \<noteq> [] \<or> or_empty (last_name pr) \<noteq> []"
    using c by auto
  ultimately show "getCustomerName p \<noteq> []"
    using pr by (simp add: getCustomerName_def Let_def)
qed

theorem getCustomerName_cases_witness:
  "getCustomerName sample_payment = ''Unknown''
   \<and> getCustomerName
       (sample_payment\<lparr>profiles :=
          Some \<lparr>email = ''ada@example.com'', first_name = Some ''Ada'', last_name = None\<rparr>\<rparr>)
     = ''Ada''
   \<and> getCustomerName
       (sample_payment\<lparr>profiles :=
          Some \<lparr>email = ''ada@example.com'', first_name = Some [], last_name = None\<rparr>\<rparr>)
     = ''ada@example.com''
   \<and> getCustomerName
       (sample_payment\<lparr>profiles :=
          Some \<lparr>email = ''ada@example.com'', first_name = Some [CHR 0xC2, CHR 0xA0],
                last_name = Some [CHR 0x09]\<rparr>\<rparr>)
     = []"
  using getCustomerName_cases[of sample_payment]
    getCustomerName_cases[of "sample_payment\<lparr>profiles :=
          Some \<lparr>email = ''ada@example.com'', first_name = Some ''Ada'', last_name = None\<rparr>\<rparr>"]
    getCustomerName_cases[of "sample_payment\<lparr>profiles :=
          Some \<lparr>email = ''ada@example.com'', first_name = Some [], last_name = None\<rparr>\<rparr>"]
    getCustomerName_cases[of "sample_payment\<lparr>profiles :=
          Some \<lparr>email = ''ada@example.com'', first_name = Some [CHR 0xC2, CHR 0xA0],
                last_name = Some [CHR 0x09]\<rparr>\<rparr>"]
  by (simp add: sample_payment_def or_empty_def onlyWhiteSpace_def trim_eval)

text \<open>
  C5 in the wording of the specification, where the name is never empty once a present
  profile has an email, fails for a first name that is a single space, with the last
  name absent and an email present: the name is non-empty before it is trimmed, so the
  email is not used, and the result is the empty string. It fails in the same way for a
  first name that is a no-break space, U+00A0, and it fails for a profile without names
  whose email is the empty string.
\<close>

theorem getCustomerName_blank_name:
  "getCustomerName
     (sample_payment\<lparr>profiles :=
        Some \<lparr>email = ''ada@example.com'', first_name = Some '' '', last_name = None\<rparr>\<rparr>) = []
   \<and> getCustomerName
       (sample_payment\<lparr>profiles :=
          Some \<lparr>email = ''ada@example.com'', first_name = Some [CHR 0xC2, CHR 0xA0],
                last_name = None\<rparr>\<rparr>) = []
   \<and> getCustomerName
       (sample_payment\<lparr>profiles :=
          Some \<lparr>email = [], first_name = None, last_name = None\<rparr>\<rparr>) = []"
  by (simp add: getCustomerName_def or_empty_def trim_eval)

section \<open>Properties of the currency format\<close>

text \<open>
  C6, as the code has it: for an amount from 0 up to, but not including, \<open>10 ^ 21\<close>,
  the currency \<^verbatim>\<open>NGN\<close> gives the Naira sign followed by the locale's rendering of
  the amount, and every other currency (also none, which defaults to \<^verbatim>\<open>USD\<close>) gives
  a dollar sign, the digits of the integer part, a point and exactly two decimals, the
  amount being rounded to the nearest hundredth. The result starts with the Naira sign
  exactly for \<^verbatim>\<open>NGN\<close>. The locale's rendering is a parameter.
\<close>

theorem formatCurrency_cases:
  "0 \<le> x \<Longrightarrow> x < 10 ^ 21 \<Longrightarrow>
     (cur = Some ''NGN'' \<longrightarrow> formatCurrency toLocaleString (Fin x) cur = naira @ toLocaleString (Fin x))
   \<and> (cur \<noteq> Some ''NGN'' \<longrightarrow>
        formatCurrency toLocaleString (Fin x) cur =
          ''$'' @ decimal (nat \<lfloor>x * 100 + 1 / 2\<rfloor> div 100) @ ''.'' @
          [digit (nat \<lfloor>x * 100 + 1 / 2\<rfloor> div 10 mod 10), digit (nat \<lfloor>x * 100 + 1 / 2\<rfloor> mod 10)])
   \<and> ((take 3 (formatCurrency toLocaleString (Fin x) cur) = naira) = (cur = Some ''NGN''))"
  by (auto simp: formatCurrency_def toFixed_2_digits naira_def split: option.splits)

theorem formatCurrency_cases_witness:
  "formatCurrency (toFixed 0) (Fin (2469 / 2)) (Some ''USD'') = ''$1234.50''"
  using formatCurrency_cases[of "2469 / 2" "Some ''USD''" "toFixed 0"]
  by (simp add: floor_rat_numeral_div decimal.simps digit_def)

text \<open>
  C6 in the wording of the specification, for every non-negative amount, fails at
  \<open>10 ^ 21\<close>: from there on \<^verbatim>\<open>toFixed\<close> prints in exponential notation, and the
  amount \<open>10 ^ 21\<close> in dollars has no decimals at all.
\<close>

theorem formatCurrency_1e21:
  "formatCurrency (toFixed 0) (Fin (10 ^ 21)) (Some ''USD'') = ''$1e+21''"
  by (simp add: formatCurrency_def toFixed_def numberToString_1e21)

section \<open>Properties of the loading spinner\<close>

lemma interval_due:
  "(999 + 1000 * (t div 1000) \<le> t) = (t mod 1000 = 999)" for t :: nat
proof -
  define q r where "q = t div 1000" and "r = t mod 1000"
  have "t = 1000 * q + r" and "r < 1000"
    by (simp_all add: q_def r_def)
  then have "(999 + 1000 * q \<le> t) = (r = 999)"
    by auto
  then show ?thesis
    by (simp add: q_def r_def)
qed

text \<open>
  A timeout of a whole number of milliseconds below \<open>2 ^ 31\<close> is due when that many
  milliseconds have passed; a timeout of 0 is due with the first millisecond, under
  Node.js because its delay is 1.
\<close>

lemma timerDelay_of_nat:
  assumes "T < 2 ^ 31"
  shows "(timerDelay h (Fin (of_nat T)) \<le> t \<and> 0 < t) = (T \<le> t \<and> 0 < t)"
proof -
  have i: "int T < 2 ^ 31"
    using assms by simp
  then have m: "int T mod 2 ^ 32 = int T"
    by simp
  have "(rat_of_nat T \<le> 2 ^ 31 - 1) = (rat_of_int (int T) \<le> rat_of_int (2 ^ 31 - 1))"
    by simp
  also have "\<dots> = (int T \<le> 2 ^ 31 - 1)"
    by (simp only: of_int_le_iff)
  finally have r: "(rat_of_nat T \<le> 2 ^ 31 - 1) = (int T \<le> 2 ^ 31 - 1)" .
  show ?thesis
  proof (cases h)
    case Browser
    with i m show ?thesis
      by (simp add: timerDelay_def toLong_def IntegerPart_def Let_def)
  next
    case NodeJS
    show ?thesis
    proof (cases "T = 0")
      case True
      with NodeJS show ?thesis
        by (auto simp: timerDelay_def)
    next
      case False
      then have "(1::rat) \<le> of_nat T"
        by simp
      with NodeJS i r show ?thesis
        by (simp add: timerDelay_def IntegerPart_def)
    qed
  qed
qed

lemma timerDelay_values:
  "timerDelay h (Fin 1000) = 1000" "timerDelay h (Fin 10000) = 10000"
  "timerDelay Browser (Fin 2147483648) = 0" "timerDelay NodeJS (Fin 2147483648) = 1"
  by (cases h; simp add: timerDelay_def toLong_def IntegerPart_def Let_def)+

lemma advance_mountSpinner:
  "advance t (mountSpinner h tm) =
     \<lparr>now = t,
      timeoutId =
        (if timerDelay h (case tm of None \<Rightarrow> Fin 10000 | Some v \<Rightarrow> v) \<le> t \<and> 0 < t then None
         else Some (timerDelay h (case tm of None \<Rightarrow> Fin 10000 | Some v \<Rightarrow> v))),
      interval = Some (1000 * (t div 1000 + 1)),
      timeoutReached = (timerDelay h (case tm of None \<Rightarrow> Fin 10000 | Some v \<Rightarrow> v) \<le> t \<and> 0 < t),
      loadingTime = t div 1000\<rparr>"
proof (induction t)
  case 0
  show ?case by (simp add: mountSpinner_def timerDelay_values)
next
  case (Suc t)
  show ?case
    by (auto simp: Suc.IH tick_def run_timers_def Let_def interval_due div_Suc mod_Suc)
qed

lemma advance_unmount:
  "advance d (unmount s) = (unmount s)\<lparr>now := now s + d\<rparr>"
  by (induction d) (simp_all add: unmount_def tick_def run_timers_def)

text \<open>
  C9, as the code has it, in a browser and under Node.js alike: \<open>t\<close> milliseconds after
  the spinner was mounted, \<^verbatim>\<open>loadingTime\<close> is the number of whole seconds in \<open>t\<close>,
  whatever the timeout, and \<^verbatim>\<open>timeoutReached\<close> is true from the delay of the one-shot
  timer on and false before, the timer being gone once it has fired. For a timeout \<open>T\<close>
  that is a whole number of milliseconds below \<open>2 ^ 31\<close> the flag is set when \<open>T\<close>
  milliseconds have passed (with the first millisecond when \<open>T\<close> is 0), and without a
  timeout given when 10000 have. After the spinner is unmounted, in whatever state, no
  timer is left and however much time passes both state variables keep their values.
  With \<open>T = 1000\<close>, after 1100 ms \<^verbatim>\<open>timeoutReached\<close> is true and \<^verbatim>\<open>loadingTime\<close> is at
  least 1, and they stay so after an unmount at that time.
\<close>

theorem spinner_timeline:
  "loadingTime (advance t (mountSpinner h tm)) = t div 1000
   \<and> timeoutReached (advance t (mountSpinner h (Some v))) = (timerDelay h v \<le> t \<and> 0 < t)
   \<and> timeoutId (advance t (mountSpinner h (Some v))) =
       (if timerDelay h v \<le> t \<and> 0 < t then None else Some (timerDelay h v))
   \<and> (T < 2 ^ 31 \<longrightarrow>
        timeoutReached (advance t (mountSpinner h (Some (Fin (of_nat T))))) = (T \<le> t \<and> 0 < t))
   \<and> timeoutReached (advance t (mountSpinner h None)) = (10000 \<le> t)
   \<and> loadingTime (advance d (unmount s)) = loadingTime s
   \<and> timeoutReached (advance d (unmount s)) = timeoutReached s
   \<and> timeoutId (advance d (unmount s)) = None
   \<and> interval (advance d (unmount s)) = None
   \<and> timeoutReached (advance 1100 (mountSpinner h (Some (Fin 1000))))
   \<and> 1 \<le> loadingTime (advance 1100 (mountSpinner h (Some (Fin 1000))))
   \<and> loadingTime (advance d (unmount (advance 1100 (mountSpinner h (Some (Fin 1000)))))) = 1
   \<and> timeoutReached (advance d (unmount (advance 1100 (mountSpinner h (Some (Fin 1000))))))"
proof -
  have whole: "T < 2 ^ 31 \<longrightarrow>
      timeoutReached (advance t (mountSpinner h (Some (Fin (of_nat T))))) = (T \<le> t \<and> 0 < t)"
    unfolding advance_mountSpinner by (simp add: timerDelay_of_nat)
  have rest:
    "loadingTime (advance t (mountSpinner h tm)) = t div 1000"
    "timeoutReached (advance t (mountSpinner h (Some v))) = (timerDelay h v \<le> t \<and> 0 < t)"
    "timeoutId (advance t (mountSpinner h (Some v))) =
       (if timerDelay h v \<le> t \<and> 0 < t then None else Some (timerDelay h v))"
    "timeoutReached (advance t (mountSpinner h None)) = (10000 \<le> t)"
    "loadingTime (advance d (unmount s)) = loadingTime s"
    "timeoutReached (advance d (unmount s)) = timeoutReached s"
    "timeoutId (advance d (unmount s)) = None"
    "interval (advance d (unmount s)) = None"
    "timeoutReached (advance 1100 (mountSpinner h (Some (Fin 1000))))"
    "1 \<le> loadingTime (advance 1100 (mountSpinner h (Some (Fin 1000))))"
    "loadingTime (advance d (unmount (advance 1100 (mountSpinner h (Some (Fin 1000)))))) = 1"
    "timeoutReached (advance d (unmount (advance 1100 (mountSpinner h (Some (Fin 1000))))))"
    unfolding advance_unmount advance_mountSpinner
    by (simp_all add: unmount_def timerDelay_values) linarith
  from whole rest show ?thesis
    by (intro conjI)
qed

theorem spinner_timeline_witness:
  "timeoutReached (advance 1100 (mountSpinner Browser (Some (Fin 1000))))
   \<and> \<not> timeoutReached (advance 999 (mountSpinner Browser (Some (Fin 1000))))
   \<and> timeoutReached (advance 1100 (mountSpinner NodeJS (Some (Fin 1000))))
   \<and> \<not> timeoutReached (advance 999 (mountSpinner NodeJS (Some (Fin 1000))))"
  using spinner_timeline[where T = 1000 and t = 1100 and h = Browser]
    spinner_timeline[where T = 1000 and t = 999 and h = Browser]
    spinner_timeline[where T = 1000 and t = 1100 and h = NodeJS]
    spinner_timeline[where T = 1000 and t = 999 and h = NodeJS]
  by (simp add: timerDelay_values)

text \<open>
  C9 in the wording of the specification, where the flag is set when \<open>T\<close> milliseconds
  have passed whatever \<open>T\<close> is, fails for a timeout of \<open>2 ^ 31\<close> milliseconds: in a
  browser it is negative when read as a signed 32-bit integer, and under Node.js it is
  out of range, so that the timer is due with the first millisecond, and 60 ms after
  mounting the flag is set.
\<close>

theorem spinner_timeout_overflow:
  "timeoutReached (advance 60 (mountSpinner Browser (Some (Fin 2147483648))))
   \<and> timeoutReached (advance 60 (mountSpinner NodeJS (Some (Fin 2147483648))))"
  unfolding advance_mountSpinner by (simp add: timerDelay_values)

end
